theory Spec2Isabelle
  imports Main
begin

section \<open>The memory tracker of \<^verbatim>\<open>dainlp/utils/resources.py\<close>\<close>

text \<open>
  The class \<^verbatim>\<open>MemoryTracker\<close> is embedded with explicit state passing. What the
  Python reads from outside the object is an argument of the model:
  \<^item> the name of the calling function that \<^verbatim>\<open>derive_stage\<close> finds two frames up
    (\<open>caller\<close>);
  \<^item> the values returned by \<^verbatim>\<open>torch.cuda.memory_allocated()\<close>,
    \<^verbatim>\<open>torch.cuda.max_memory_allocated()\<close> and \<^verbatim>\<open>process.memory_info().rss\<close>
    at the moment the method asks for them (Python integers, hence \<open>int\<close>);
  \<^item> for the sampling thread, the list of what each loop iteration sees: the reading it
    takes and the value of the flag \<^verbatim>\<open>peak_monitoring\<close> it then tests.

  A Python method that raises leaves the object (and a dictionary passed in) as mutated so
  far, so a raised error carries the state reached, like a normal return.
\<close>

datatype error = AssertionError | AttributeError | KeyError

datatype 'a outcome = Return 'a | Raise error 'a

text \<open>
  The dictionary \<^verbatim>\<open>dict(begin=..., end=..., alloc=..., peaked=...)\<close> that \<^verbatim>\<open>stop\<close>
  stores per stage. It is only ever built by that one expression, so it is a record of
  four integers; \<open>snap_get\<close> is its lookup by key.
\<close>

record snapshot =
  snap_begin :: int
  snap_end :: int
  snap_alloc :: int
  snap_peaked :: int

definition snap_get :: "snapshot \<Rightarrow> string \<Rightarrow> int option" where
  "snap_get sn k =
     (if k = ''begin'' then Some (snap_begin sn)
      else if k = ''end'' then Some (snap_end sn)
      else if k = ''alloc'' then Some (snap_alloc sn)
      else if k = ''peaked'' then Some (snap_peaked sn)
      else None)"

text \<open>
  \<^verbatim>\<open>self.gpu\<close> and \<^verbatim>\<open>self.cpu\<close> are keyed by the value of \<^verbatim>\<open>self.cur_stage\<close>,
  which is a string or Python's \<^verbatim>\<open>None\<close>: the key type is \<open>string option\<close>.
\<close>

type_synonym stage_dict = "string option \<rightharpoonup> snapshot"

type_synonym metrics = "string \<rightharpoonup> int"

text \<open>The calls the tracker makes on its collaborators, logged in the order made.\<close>

datatype effect = GcCollect | ResetPeakMemoryStats | EmptyCache | ThreadStart

text \<open>
  The attributes of a tracker other than \<^verbatim>\<open>skip_memory_metrics\<close>. The first four are
  assigned by \<^verbatim>\<open>__init__\<close> (together with \<^verbatim>\<open>self.process\<close>); the others are assigned
  on first use by \<^verbatim>\<open>start\<close>, \<^verbatim>\<open>stop\<close> and the sampling thread, so each is optional:
  \<open>None\<close> is an attribute the object does not have yet, and reading it raises
  \<^verbatim>\<open>AttributeError\<close>.
\<close>

record attributes =
  gpu :: stage_dict
  cpu :: stage_dict
  cur_stage :: "string option"
  init_reported :: bool
  gpu_memory_used_at_start :: "int option"
  cpu_memory_used_at_start :: "int option"
  peak_monitoring :: "bool option"
  cpu_memory_used_peak :: "int option"
  gpu_memory_used_now :: "int option"
  gpu_memory_used_peak :: "int option"
  cpu_memory_used_now :: "int option"

text \<open>
  A tracker: the flag, the attributes (\<open>None\<close> when \<^verbatim>\<open>__init__\<close> returned before
  assigning any), and the log of external calls made through it so far.
\<close>

record tracker =
  skip_memory_metrics :: bool
  attrs :: "attributes option"
  effects :: "effect list"

definition MemoryTracker_init :: "bool \<Rightarrow> tracker" where
  "MemoryTracker_init skip =
     (if skip then \<lparr>skip_memory_metrics = skip, attrs = None, effects = []\<rparr>
      else \<lparr>skip_memory_metrics = skip,
            attrs = Some \<lparr>gpu = Map.empty, cpu = Map.empty, cur_stage = None,
                          init_reported = False,
                          gpu_memory_used_at_start = None, cpu_memory_used_at_start = None,
                          peak_monitoring = None, cpu_memory_used_peak = None,
                          gpu_memory_used_now = None, gpu_memory_used_peak = None,
                          cpu_memory_used_now = None\<rparr>,
            effects = []\<rparr>)"

subsection \<open>\<^verbatim>\<open>stages\<close> and \<^verbatim>\<open>derive_stage\<close>\<close>

definition stages :: "(string \<times> string) list" where
  "stages = [(''__init__'', ''init''), (''train'', ''train''), (''evaluate'', ''eval''),
             (''predict'', ''test''), (''test_MemoryTracker'', ''init'')]"

text \<open>
  \<^verbatim>\<open>assert caller in self.stages; return self.stages[caller]\<close>, with assertions enabled
  (the interpreter's default).
\<close>

definition derive_stage :: "string \<Rightarrow> error + string" where
  "derive_stage caller =
     (if caller \<notin> fst ` set stages then Inl AssertionError
      else (case map_of stages caller of None \<Rightarrow> Inl KeyError | Some stage \<Rightarrow> Inr stage))"

subsection \<open>\<^verbatim>\<open>peak_monitor_function\<close>\<close>

text \<open>
  The loop \<^verbatim>\<open>while True: peak = max(reading, peak); if not flag: break\<close>, run on the
  list of (reading, flag seen) pairs of its iterations. The result is the maintained peak,
  the number of readings taken and whether the loop has exited; on a list with no
  \<open>False\<close> flag the loop has consumed every pair and is still running.
\<close>

fun monitor_loop :: "(int \<times> bool) list \<Rightarrow> int \<Rightarrow> nat \<Rightarrow> int \<times> nat \<times> bool" where
  "monitor_loop [] peak n = (peak, n, False)"
| "monitor_loop ((reading, flag) # obs) peak n =
     (let peak' = max reading peak
      in if \<not> flag then (peak', Suc n, True) else monitor_loop obs peak' (Suc n))"

definition peak_monitor_function :: "(int \<times> bool) list \<Rightarrow> attributes \<Rightarrow> attributes \<times> nat \<times> bool" where
  "peak_monitor_function obs a =
     (case monitor_loop obs (- 1) 0 of
        (peak, n, exited) \<Rightarrow> (a\<lparr>cpu_memory_used_peak := Some peak\<rparr>, n, exited))"

subsection \<open>\<^verbatim>\<open>start\<close> and \<^verbatim>\<open>stop\<close>\<close>

definition start :: "string \<Rightarrow> int \<Rightarrow> int \<Rightarrow> tracker \<Rightarrow> tracker outcome" where
  "start caller gpu_allocated cpu_rss t =
     (if skip_memory_metrics t then Return t
      else (case derive_stage caller of
              Inl e \<Rightarrow> Raise e t
            | Inr stage \<Rightarrow>
                (case attrs t of
                   None \<Rightarrow> Raise AttributeError t
                 | Some a \<Rightarrow>
                     if cur_stage a \<noteq> None \<and> cur_stage a \<noteq> Some stage then Return t
                     else Return (t\<lparr>attrs := Some (a\<lparr>cur_stage := Some stage,
                                                      gpu_memory_used_at_start := Some gpu_allocated,
                                                      cpu_memory_used_at_start := Some cpu_rss,
                                                      peak_monitoring := Some True\<rparr>),
                                    effects := effects t @
                                      [GcCollect, ResetPeakMemoryStats, EmptyCache, ThreadStart]\<rparr>))))"

definition mk_snapshot :: "int \<Rightarrow> int \<Rightarrow> int \<Rightarrow> snapshot" where
  "mk_snapshot at_start now peak =
     \<lparr>snap_begin = at_start, snap_end = now, snap_alloc = now - at_start,
      snap_peaked = max 0 (peak - now)\<rparr>"

text \<open>
  \<^verbatim>\<open>stop\<close> has no test of \<^verbatim>\<open>skip_memory_metrics\<close>; its first statement reads
  \<^verbatim>\<open>self.cur_stage\<close>. The arguments after \<open>stage\<close> are the three readings it takes, in
  the order taken.
\<close>

definition stop :: "string \<Rightarrow> int \<Rightarrow> int \<Rightarrow> int \<Rightarrow> tracker \<Rightarrow> tracker outcome" where
  "stop stage gpu_allocated gpu_max_allocated cpu_rss t =
     (case attrs t of
        None \<Rightarrow> Raise AttributeError t
      | Some a \<Rightarrow>
          if cur_stage a \<noteq> None \<and> cur_stage a \<noteq> Some stage then Return t
          else
            let fx = effects t @ [GcCollect, EmptyCache];
                a1 = a\<lparr>peak_monitoring := Some False,
                       gpu_memory_used_now := Some gpu_allocated,
                       gpu_memory_used_peak := Some gpu_max_allocated\<rparr>
            in (case gpu_memory_used_at_start a1 of
                  None \<Rightarrow> Raise AttributeError (t\<lparr>attrs := Some a1, effects := fx\<rparr>)
                | Some gpu_begin \<Rightarrow>
                    let a2 = a1\<lparr>gpu := (gpu a1)(cur_stage a1 \<mapsto>
                                          mk_snapshot gpu_begin gpu_allocated gpu_max_allocated),
                                cpu_memory_used_now := Some cpu_rss\<rparr>
                    in (case cpu_memory_used_at_start a2 of
                          None \<Rightarrow> Raise AttributeError (t\<lparr>attrs := Some a2, effects := fx\<rparr>)
                        | Some cpu_begin \<Rightarrow>
                            (case cpu_memory_used_peak a2 of
                               None \<Rightarrow> Raise AttributeError (t\<lparr>attrs := Some a2, effects := fx\<rparr>)
                             | Some cpu_peak \<Rightarrow>
                                 Return (t\<lparr>attrs := Some (a2\<lparr>cpu := (cpu a2)(cur_stage a2 \<mapsto>
                                                                   mk_snapshot cpu_begin cpu_rss cpu_peak),
                                                                cur_stage := None\<rparr>),
                                           effects := fx\<rparr>)))))"

subsection \<open>\<^verbatim>\<open>update_metrics\<close> and \<^verbatim>\<open>stop_and_update_metrics\<close>\<close>

definition delta_key :: "string \<Rightarrow> string \<Rightarrow> string \<Rightarrow> string" where
  "delta_key stage dev k = stage @ ''_memory_'' @ dev @ ''_'' @ k @ ''_delta''"

text \<open>
  The list \<^verbatim>\<open>stages\<close> local to \<^verbatim>\<open>update_metrics\<close>: \<^verbatim>\<open>[stage]\<close>, with
  \<^verbatim>\<open>"init"\<close> inserted in front while \<^verbatim>\<open>init_reported\<close> is false.
\<close>

definition emitted_stages :: "bool \<Rightarrow> string \<Rightarrow> string list" where
  "emitted_stages reported stage = (if \<not> reported then [''init'', stage] else [stage])"

text \<open>
  The assignments \<^verbatim>\<open>metrics[key] = value\<close> of one pass of the inner loop body (one
  stage, one kind), then of the two nested loops, in the order executed.
\<close>

definition kind_writes :: "attributes \<Rightarrow> string \<Rightarrow> string \<Rightarrow> (string \<times> int) list" where
  "kind_writes a stage k =
     (case cpu a (Some stage) of
        None \<Rightarrow> []
      | Some sn \<Rightarrow> (case snap_get sn k of None \<Rightarrow> [] | Some v \<Rightarrow> [(delta_key stage ''cpu'' k, v)])) @
     (case gpu a (Some stage) of
        None \<Rightarrow> []
      | Some sn \<Rightarrow> (case snap_get sn k of None \<Rightarrow> [] | Some v \<Rightarrow> [(delta_key stage ''gpu'' k, v)]))"

definition delta_writes :: "attributes \<Rightarrow> string list \<Rightarrow> (string \<times> int) list" where
  "delta_writes a sts = concat (map (\<lambda>stage. concat (map (kind_writes a stage) [''alloc'', ''peaked''])) sts)"

definition apply_writes :: "(string \<times> int) list \<Rightarrow> metrics \<Rightarrow> metrics" where
  "apply_writes ws m = foldl (\<lambda>m' (k, v). m'(k \<mapsto> v)) m ws"

definition update_metrics :: "string \<Rightarrow> metrics \<Rightarrow> tracker \<Rightarrow> (tracker \<times> metrics) outcome" where
  "update_metrics stage m t =
     (if skip_memory_metrics t then Return (t, m)
      else (case attrs t of
              None \<Rightarrow> Raise AttributeError (t, m)
            | Some a \<Rightarrow>
                if cur_stage a \<noteq> None \<and> cur_stage a \<noteq> Some stage then Return (t, m)
                else
                  let sts = emitted_stages (init_reported a) stage;
                      t1 = (if \<not> init_reported a then t\<lparr>attrs := Some (a\<lparr>init_reported := True\<rparr>)\<rparr> else t);
                      m1 = apply_writes (delta_writes a sts) m
                  in if hd sts = ''init'' then
                       (case cpu a (Some ''init'') of
                          None \<Rightarrow> Raise KeyError (t1, m1)
                        | Some ci \<Rightarrow>
                            let m2 = m1(''before_init_memory_cpu'' \<mapsto> snap_begin ci)
                            in (case gpu a (Some ''init'') of
                                  None \<Rightarrow> Raise KeyError (t1, m2)
                                | Some gi \<Rightarrow> Return (t1, m2(''before_init_memory_gpu'' \<mapsto> snap_begin gi))))
                     else Return (t1, m1)))"

text \<open>
  \<^verbatim>\<open>stop_and_update_metrics(metrics=None)\<close>: the optional argument is \<open>None\<close> or a
  dictionary; an exception of \<^verbatim>\<open>stop\<close> propagates before \<^verbatim>\<open>update_metrics\<close> runs.
\<close>

definition stop_and_update_metrics ::
  "string \<Rightarrow> int \<Rightarrow> int \<Rightarrow> int \<Rightarrow> metrics option \<Rightarrow> tracker \<Rightarrow> (tracker \<times> metrics option) outcome" where
  "stop_and_update_metrics caller gpu_allocated gpu_max_allocated cpu_rss mo t =
     (if skip_memory_metrics t then Return (t, mo)
      else (case derive_stage caller of
              Inl e \<Rightarrow> Raise e (t, mo)
            | Inr stage \<Rightarrow>
                (case stop stage gpu_allocated gpu_max_allocated cpu_rss t of
                   Raise e t1 \<Rightarrow> Raise e (t1, mo)
                 | Return t1 \<Rightarrow>
                     (case mo of
                        None \<Rightarrow> Return (t1, None)
                      | Some m \<Rightarrow>
                          (case update_metrics stage m t1 of
                             Raise e (t2, m2) \<Rightarrow> Raise e (t2, Some m2)
                           | Return (t2, m2) \<Rightarrow> Return (t2, Some m2))))))"

subsection \<open>Reading outcomes\<close>

text \<open>The state an outcome carries, whether the call returned or raised.\<close>

definition final :: "'a outcome \<Rightarrow> 'a" where
  "final r = (case r of Return x \<Rightarrow> x | Raise e x \<Rightarrow> x)"

text \<open>
  The sampling thread's assignment to \<^verbatim>\<open>self.cpu_memory_used_peak\<close>, as \<^verbatim>\<open>stop\<close> finds
  it: the thread runs beside the caller and this attribute is all it writes.
\<close>

definition observed_peak :: "int \<Rightarrow> tracker \<Rightarrow> tracker" where
  "observed_peak p t = t\<lparr>attrs := map_option (\<lambda>a. a\<lparr>cpu_memory_used_peak := Some p\<rparr>) (attrs t)\<rparr>"

text \<open>
  The number of iterations \<open>monitor_loop\<close> makes on a list of observations: up to and
  including the first one whose flag is \<open>False\<close>, all of them when there is none.
\<close>

definition iterations :: "(int \<times> bool) list \<Rightarrow> nat" where
  "iterations obs = (if \<exists>x\<in>set obs. \<not> snd x then Suc (length (takeWhile snd obs)) else length obs)"

text \<open>The dictionary of a device name: \<^verbatim>\<open>self.cpu\<close> for \<open>cpu\<close>, \<^verbatim>\<open>self.gpu\<close> otherwise.\<close>

definition dev_dict :: "attributes \<Rightarrow> string \<Rightarrow> stage_dict" where
  "dev_dict a dev = (if dev = ''cpu'' then cpu a else gpu a)"

subsection \<open>Two example trackers\<close>

text \<open>
  A tracker after one stage cycle started from \<^verbatim>\<open>train\<close>, and one after a cycle started
  from \<^verbatim>\<open>__init__\<close> followed by a cycle started from \<^verbatim>\<open>train\<close>. No metrics have been
  reported on either.
\<close>

definition after_train :: tracker where
  "after_train =
     final (stop ''train'' 2500 2800 1500 (observed_peak 1800
       (final (start ''train'' 2000 1000 (MemoryTracker_init False)))))"

definition after_init_and_train :: tracker where
  "after_init_and_train =
     final (stop ''train'' 2500 2800 1500 (observed_peak 1800
       (final (start ''train'' 2000 1000
         (final (stop ''init'' 2000 2100 900 (observed_peak 950
           (final (start ''__init__'' 0 100 (MemoryTracker_init False))))))))))"

section \<open>Stage resolution\<close>

lemma map_of_stages:
  "map_of stages c =
     (if c = ''__init__'' then Some ''init''
      else if c = ''train'' then Some ''train''
      else if c = ''evaluate'' then Some ''eval''
      else if c = ''predict'' then Some ''test''
      else if c = ''test_MemoryTracker'' then Some ''init''
      else None)"
  by (simp add: stages_def)

lemma derive_stage_eq:
  "derive_stage c = (case map_of stages c of None \<Rightarrow> Inl AssertionError | Some st \<Rightarrow> Inr st)"
  by (simp add: derive_stage_def stages_def)

text \<open>
  Claim C7. For every caller name \<open>c\<close>, \<open>derive_stage\<close> returns the stage bound to \<open>c\<close>
  in the table \<open>__init__ \<mapsto> init, train \<mapsto> train, evaluate \<mapsto> eval, predict \<mapsto> test,
  test_MemoryTracker \<mapsto> init\<close> when \<open>c\<close> is in the table, and fails with an assertion error
  exactly when \<open>c\<close> is not in the table.
\<close>

theorem derive_stage_table:
  "derive_stage c =
     (case map_of [(''__init__'', ''init''), (''train'', ''train''), (''evaluate'', ''eval''),
                   (''predict'', ''test''), (''test_MemoryTracker'', ''init'')] c of
        Some st \<Rightarrow> Inr st
      | None \<Rightarrow> Inl AssertionError)
   \<and> (derive_stage c = Inl AssertionError) =
       (c \<notin> {''__init__'', ''train'', ''evaluate'', ''predict'', ''test_MemoryTracker''})"
  unfolding derive_stage_eq map_of_stages by simp

section \<open>Starting and stopping a stage\<close>

text \<open>
  The peak that \<^verbatim>\<open>stop\<close> finds is the one a run of the sampler leaves: for the
  observations \<open>obs\<close> of the thread's iterations so far it is the first component of
  \<open>monitor_loop obs (- 1) 0\<close>.
\<close>

lemma observed_peak_sampler:
  assumes "attrs t = Some a"
  shows "observed_peak (fst (monitor_loop obs (- 1) 0)) t
           = t\<lparr>attrs := Some (fst (peak_monitor_function obs a))\<rparr>"
  using assms
  by (cases "monitor_loop obs (- 1) 0") (simp add: observed_peak_def peak_monitor_function_def)

text \<open>While a stage is open, \<open>start()\<close> resolving to another stage changes nothing.\<close>

lemma start_other_stage_open:
  assumes "attrs t = Some a" and "cur_stage a = Some s1" and "derive_stage caller = Inr s2" and "s2 \<noteq> s1"
  shows "start caller g c t = Return t"
  using assms by (simp add: start_def)

text \<open>
  Claim C1. Let a tracker that collects metrics have no stage open (or the stage \<open>s\<close>
  itself), and let \<open>start()\<close> be called from a caller that resolves to \<open>s\<close>, reading
  \<open>gpu_begin\<close> and \<open>cpu_begin\<close>. If the sampler's peak seen by \<open>stop\<close> is \<open>cpu_peak\<close>,
  then \<open>stop(s)\<close>, reading \<open>gpu_end\<close>, \<open>gpu_peak\<close> and \<open>cpu_end\<close>, returns and stores for
  \<open>s\<close> the CPU snapshot with \<open>alloc = cpu_end - cpu_begin\<close> and
  \<open>peaked = max 0 (cpu_peak - cpu_end)\<close>, and the accelerator snapshot with the same
  arithmetic on its own readings.
\<close>

theorem start_stop_snapshot:
  assumes "\<not> skip_memory_metrics t" and "attrs t = Some a"
    and "cur_stage a = None \<or> cur_stage a = Some s"
    and "derive_stage caller = Inr s"
  shows "\<exists>t1 t3 a3.
           start caller gpu_begin cpu_begin t = Return t1
         \<and> stop s gpu_end gpu_peak cpu_end (observed_peak cpu_peak t1) = Return t3
         \<and> attrs t3 = Some a3
         \<and> cpu a3 (Some s) = Some \<lparr>snap_begin = cpu_begin, snap_end = cpu_end,
                                   snap_alloc = cpu_end - cpu_begin,
                                   snap_peaked = max 0 (cpu_peak - cpu_end)\<rparr>
         \<and> gpu a3 (Some s) = Some \<lparr>snap_begin = gpu_begin, snap_end = gpu_end,
                                   snap_alloc = gpu_end - gpu_begin,
                                   snap_peaked = max 0 (gpu_peak - gpu_end)\<rparr>
         \<and> cur_stage a3 = None"
  using assms by (auto simp: start_def stop_def observed_peak_def mk_snapshot_def)

text \<open>
  The scenario of the specification: CPU usage from 1,000,000,000 to 1,500,000,000 bytes
  with a peak of 1,800,000,000 gives \<open>alloc\<close> 500,000,000 and \<open>peaked\<close> 300,000,000.
\<close>

theorem start_stop_snapshot_witness:
  "\<exists>t1 t3 a3.
     start ''train'' 2000 1000000000 (MemoryTracker_init False) = Return t1
   \<and> stop ''train'' 2500 2800 1500000000 (observed_peak 1800000000 t1) = Return t3
   \<and> attrs t3 = Some a3
   \<and> cpu a3 (Some ''train'') = Some \<lparr>snap_begin = 1000000000, snap_end = 1500000000,
                                      snap_alloc = 500000000, snap_peaked = 300000000\<rparr>
   \<and> gpu a3 (Some ''train'') = Some \<lparr>snap_begin = 2000, snap_end = 2500,
                                      snap_alloc = 500, snap_peaked = 300\<rparr>
   \<and> cur_stage a3 = None"
  using start_stop_snapshot [of "MemoryTracker_init False" _ "''train''" "''train''"
      2000 1000000000 2500 2800 1500000000 1800000000]
  by (simp add: MemoryTracker_init_def derive_stage_eq map_of_stages)

text \<open>
  Claim C5. In every tracker state in which a stage \<open>s1\<close> is open, \<open>stop(s2)\<close> for a
  stage \<open>s2\<close> other than \<open>s1\<close> returns with the tracker exactly as it was: both per-stage
  mappings are unchanged (no snapshot for \<open>s2\<close>, the one of \<open>s1\<close> untouched) and \<open>s1\<close>
  is still the open stage.
\<close>

theorem stop_other_stage:
  assumes "attrs t = Some a" and "cur_stage a = Some s1" and "s2 \<noteq> s1"
  shows "stop s2 gpu_allocated gpu_max_allocated cpu_rss t = Return t"
  using assms by (simp add: stop_def)

theorem stop_other_stage_witness:
  "stop ''eval'' 1 2 3 (final (start ''train'' 10 20 (MemoryTracker_init False)))
     = Return (final (start ''train'' 10 20 (MemoryTracker_init False)))
   \<and> (\<exists>a. attrs (final (start ''train'' 10 20 (MemoryTracker_init False))) = Some a
          \<and> cur_stage a = Some ''train'')"
  using stop_other_stage [of "final (start ''train'' 10 20 (MemoryTracker_init False))" _
      "''train''" "''eval''" 1 2 3]
  by (simp add: final_def start_def MemoryTracker_init_def derive_stage_eq map_of_stages)

text \<open>
  Claim C2 says that \<open>stop(s)\<close> with no stage open is a no-op. The guard of \<^verbatim>\<open>stop\<close>
  returns only when a different stage is open, so with \<^verbatim>\<open>cur_stage\<close> \<^verbatim>\<open>None\<close> the
  body runs: on a tracker that was never started it raises \<^verbatim>\<open>AttributeError\<close> (after
  lowering the flag and storing two readings), and on a tracker whose last stage was
  closed it stores a snapshot under the key \<^verbatim>\<open>None\<close> in both mappings, computed from
  the previous stage's begin readings and sampler peak.
\<close>

theorem stop_without_open_stage:
  "stop ''train'' 5 6 7 (MemoryTracker_init False) \<noteq> Return (MemoryTracker_init False)
   \<and> (\<exists>t'. stop ''train'' 5 6 7 (MemoryTracker_init False) = Raise AttributeError t')
   \<and> (\<exists>a. attrs (final (stop ''train'' 15 18 15 (observed_peak 18
              (final (start ''train'' 10 10 (MemoryTracker_init False)))))) = Some a
          \<and> cur_stage a = None \<and> cpu a None = None \<and> gpu a None = None)
   \<and> (\<exists>t' a'. stop ''train'' 20 25 30
              (final (stop ''train'' 15 18 15 (observed_peak 18
                (final (start ''train'' 10 10 (MemoryTracker_init False)))))) = Return t'
          \<and> attrs t' = Some a'
          \<and> cpu a' None = Some \<lparr>snap_begin = 10, snap_end = 30, snap_alloc = 20, snap_peaked = 0\<rparr>
          \<and> gpu a' None = Some \<lparr>snap_begin = 10, snap_end = 20, snap_alloc = 10, snap_peaked = 5\<rparr>)"
  by (simp add: stop_def start_def final_def observed_peak_def MemoryTracker_init_def
      derive_stage_eq map_of_stages mk_snapshot_def)

text \<open>
  Claim C3 says that on a tracker built with \<^verbatim>\<open>skip_memory_metrics=True\<close> every method
  is a no-op that raises nothing. \<^verbatim>\<open>stop\<close> is the one method without the guard: it
  reads \<^verbatim>\<open>self.cur_stage\<close>, which \<^verbatim>\<open>__init__\<close> did not assign, and raises
  \<^verbatim>\<open>AttributeError\<close>.
\<close>

theorem stop_skipped_raises:
  "stop ''train'' 1 2 3 (MemoryTracker_init True) = Raise AttributeError (MemoryTracker_init True)"
  by (simp add: stop_def MemoryTracker_init_def)

text \<open>
  The three guarded methods do return with the tracker and the metrics as they were, and
  the constructor assigns no attribute.
\<close>

lemma skip_guarded_methods:
  assumes "skip_memory_metrics t"
  shows "start caller g c t = Return t"
    and "update_metrics stage m t = Return (t, m)"
    and "stop_and_update_metrics caller g gp c mo t = Return (t, mo)"
  using assms by (simp_all add: start_def update_metrics_def stop_and_update_metrics_def)

lemma init_skipped:
  "MemoryTracker_init True = \<lparr>skip_memory_metrics = True, attrs = None, effects = []\<rparr>"
  by (simp add: MemoryTracker_init_def)

text \<open>
  Claim C4 says that a second \<open>start()\<close> for the stage already open is a no-op. The guard
  of \<^verbatim>\<open>start\<close> returns only when a different stage is open; for the same stage the body
  runs again. After \<open>start()\<close> reading 10 and 20, a second \<open>start()\<close> reading 30 and 40
  replaces the begin readings and repeats the four external calls, the thread start among
  them.
\<close>

theorem start_twice_counterexample:
  "start ''train'' 30 40 (final (start ''train'' 10 20 (MemoryTracker_init False)))
     \<noteq> Return (final (start ''train'' 10 20 (MemoryTracker_init False)))
   \<and> map_option cpu_memory_used_at_start (attrs (final (start ''train'' 10 20 (MemoryTracker_init False))))
       = Some (Some 20)
   \<and> map_option cpu_memory_used_at_start
        (attrs (final (start ''train'' 30 40 (final (start ''train'' 10 20 (MemoryTracker_init False))))))
       = Some (Some 40)
   \<and> effects (final (start ''train'' 10 20 (MemoryTracker_init False)))
       = [GcCollect, ResetPeakMemoryStats, EmptyCache, ThreadStart]
   \<and> effects (final (start ''train'' 30 40 (final (start ''train'' 10 20 (MemoryTracker_init False)))))
       = [GcCollect, ResetPeakMemoryStats, EmptyCache, ThreadStart,
          GcCollect, ResetPeakMemoryStats, EmptyCache, ThreadStart]"
  by (simp add: start_def final_def MemoryTracker_init_def derive_stage_eq map_of_stages)

text \<open>
  Claim C4, amended. Two calls of \<open>start()\<close> in a row that resolve to the same stage
  \<open>s\<close> both return and leave \<open>s\<close> the open stage, but the second is not a no-op: it
  takes the begin readings again, resets the accelerator peak statistics again and launches
  another sampler. The attributes after the two calls are those after a single \<open>start()\<close>
  that takes the second call's readings.
\<close>

theorem start_twice:
  assumes "\<not> skip_memory_metrics t" and "attrs t = Some a"
    and "cur_stage a = None \<or> cur_stage a = Some s"
    and "derive_stage caller = Inr s"
  shows "\<exists>t1 t2 a2.
           start caller g1 c1 t = Return t1
         \<and> start caller g2 c2 t1 = Return t2
         \<and> attrs t2 = Some a2
         \<and> cur_stage a2 = Some s
         \<and> gpu_memory_used_at_start a2 = Some g2
         \<and> cpu_memory_used_at_start a2 = Some c2
         \<and> peak_monitoring a2 = Some True
         \<and> attrs t2 = attrs (final (start caller g2 c2 t))
         \<and> effects t1 = effects t @ [GcCollect, ResetPeakMemoryStats, EmptyCache, ThreadStart]
         \<and> effects t2 = effects t1 @ [GcCollect, ResetPeakMemoryStats, EmptyCache, ThreadStart]"
  using assms by (auto simp: start_def final_def)

theorem start_twice_witness:
  "\<exists>t1 t2 a2.
           start ''train'' 10 20 (MemoryTracker_init False) = Return t1
         \<and> start ''train'' 30 40 t1 = Return t2
         \<and> attrs t2 = Some a2
         \<and> cur_stage a2 = Some ''train''
         \<and> gpu_memory_used_at_start a2 = Some 30
         \<and> cpu_memory_used_at_start a2 = Some 40
         \<and> peak_monitoring a2 = Some True
         \<and> attrs t2 = attrs (final (start ''train'' 30 40 (MemoryTracker_init False)))
         \<and> effects t1 = [GcCollect, ResetPeakMemoryStats, EmptyCache, ThreadStart]
         \<and> effects t2 = effects t1 @ [GcCollect, ResetPeakMemoryStats, EmptyCache, ThreadStart]"
  using start_twice [of "MemoryTracker_init False" _ "''train''" "''train''" 10 20 30 40]
  by (simp add: MemoryTracker_init_def derive_stage_eq map_of_stages)

section \<open>The sampling loop\<close>

lemma monitor_loop_char:
  "monitor_loop obs p n =
     (fold max (map fst (take (iterations obs) obs)) p, n + iterations obs, \<exists>x\<in>set obs. \<not> snd x)"
proof (induction obs arbitrary: p n)
  case Nil
  then show ?case by (simp add: iterations_def)
next
  case (Cons x obs)
  obtain r f where x: "x = (r, f)" by (cases x)
  show ?case
  proof (cases f)
    case True
    then show ?thesis using Cons [of "max r p" "Suc n"] by (simp add: x iterations_def)
  next
    case False
    then show ?thesis by (simp add: x iterations_def)
  qed
qed

lemma fold_max_Max: "fold max xs (p::int) = Max (insert p (set xs))"
  using Max.set_eq_fold [of p xs] by simp

lemma monitor_loop_ge: "p \<le> fst (monitor_loop obs p n)"
proof (induction obs arbitrary: p n)
  case Nil
  then show ?case by simp
next
  case (Cons x obs)
  obtain r f where x: "x = (r, f)" by (cases x)
  have "p \<le> max r p" by simp
  also have "max r p \<le> fst (monitor_loop obs (max r p) (Suc n))" by (rule Cons)
  finally show ?case by (simp add: x Let_def)
qed

lemma monitor_loop_step:
  "fst (monitor_loop (take i obs) p n) \<le> fst (monitor_loop (take (Suc i) obs) p n)"
proof (induction obs arbitrary: i p n)
  case Nil
  then show ?case by simp
next
  case (Cons x obs)
  obtain r f where x: "x = (r, f)" by (cases x)
  show ?case
  proof (cases i)
    case 0
    then show ?thesis using monitor_loop_ge [of p "[x]" n] by simp
  next
    case (Suc i')
    then show ?thesis using Cons [of i' "max r p" "Suc n"] by (simp add: x Let_def)
  qed
qed

lemma monitor_loop_mono:
  "i \<le> j \<Longrightarrow> fst (monitor_loop (take i obs) p n) \<le> fst (monitor_loop (take j obs) p n)"
  by (rule lift_Suc_mono_le [of "\<lambda>i. fst (monitor_loop (take i obs) p n)"]) (rule monitor_loop_step)

lemma length_takeWhile_flag:
  "\<exists>x\<in>set obs. \<not> P x \<Longrightarrow> length (takeWhile P obs) < length obs"
  by (induction obs) auto

lemma iterations_le: "iterations obs \<le> length obs"
proof -
  show ?thesis
  proof (cases "\<exists>x\<in>set obs. \<not> snd x")
    case True
    then have "length (takeWhile snd obs) < length obs" by (rule length_takeWhile_flag)
    then show ?thesis using True by (simp add: iterations_def)
  next
    case False
    then show ?thesis by (simp add: iterations_def)
  qed
qed

lemma iterations_pos: "obs \<noteq> [] \<Longrightarrow> 0 < iterations obs"
  by (simp add: iterations_def)

lemma exit_flag:
  assumes "\<exists>x\<in>set obs. \<not> snd x"
  shows "\<not> snd (obs ! (iterations obs - 1))" and "\<forall>i < iterations obs - 1. snd (obs ! i)"
proof -
  have lt: "length (takeWhile snd obs) < length obs"
    using assms by (rule length_takeWhile_flag)
  show "\<not> snd (obs ! (iterations obs - 1))"
    using assms nth_length_takeWhile [OF lt] by (simp add: iterations_def)
  show "\<forall>i < iterations obs - 1. snd (obs ! i)"
  proof (intro allI impI)
    fix i
    assume "i < iterations obs - 1"
    then have i: "i < length (takeWhile snd obs)" using assms by (simp add: iterations_def)
    then have "takeWhile snd obs ! i \<in> set (takeWhile snd obs)" by (rule nth_mem)
    then have "snd (takeWhile snd obs ! i)" by (rule set_takeWhileD [THEN conjunct2])
    moreover have "takeWhile snd obs ! i = obs ! i" using i by (rule takeWhile_nth)
    ultimately show "snd (obs ! i)" by simp
  qed
qed

lemma flag_lowered:
  assumes "k < length obs" and "\<forall>j. k \<le> j \<and> j < length obs \<longrightarrow> \<not> snd (obs ! j)"
  shows "(\<exists>x\<in>set obs. \<not> snd x) \<and> iterations obs \<le> Suc k"
proof -
  have "obs ! k \<in> set obs" using assms(1) by (rule nth_mem)
  moreover have "\<not> snd (obs ! k)" using assms by simp
  ultimately have ex: "\<exists>x\<in>set obs. \<not> snd x" by (rule rev_bexI)
  have "length (takeWhile snd obs) \<le> k"
  proof (rule ccontr)
    assume "\<not> length (takeWhile snd obs) \<le> k"
    then have "k < length (takeWhile snd obs)" by simp
    then have "takeWhile snd obs ! k \<in> set (takeWhile snd obs)" by (rule nth_mem)
    then have "snd (takeWhile snd obs ! k)" by (rule set_takeWhileD [THEN conjunct2])
    moreover have "takeWhile snd obs ! k = obs ! k"
      using \<open>k < length (takeWhile snd obs)\<close> by (rule takeWhile_nth)
    ultimately show False using assms by simp
  qed
  then show ?thesis using ex by (simp add: iterations_def)
qed

lemma peak_monitor_function_char:
  "peak_monitor_function obs a =
     (a\<lparr>cpu_memory_used_peak := Some (Max (insert (- 1) (fst ` set (take (iterations obs) obs))))\<rparr>,
      iterations obs, \<exists>x\<in>set obs. \<not> snd x)"
  by (simp add: peak_monitor_function_def monitor_loop_char fold_max_Max)

lemma Max_nonneg_readings:
  assumes "finite S" and "S \<noteq> {}" and "\<forall>r\<in>S. (0::int) \<le> r"
  shows "Max (insert (- 1) S) = Max S"
proof -
  have "Max S \<in> S" using assms(1,2) by (rule Max_in)
  then have "0 \<le> Max S" using assms(3) by blast
  then show ?thesis using assms(1,2) by (simp add: max_def)
qed

text \<open>
  Claim C9. Run on the sequence \<open>obs\<close> of its iterations' observations, the sampler
  \<^item> has exited exactly when some observed flag is \<open>False\<close>, and then has made as many
    iterations as there are observations up to and including the first such one: the last
    flag it saw is \<open>False\<close>, every earlier one \<open>True\<close>;
  \<^item> takes one reading per iteration, before the flag test, so it takes at least one
    reading whenever it runs, and once the flag is \<open>False\<close> from the test of iteration
    \<open>k + 1\<close> on, it takes at most \<open>k + 1\<close> readings;
  \<^item> leaves in \<^verbatim>\<open>cpu_memory_used_peak\<close> the maximum of \<open>-1\<close> and the readings taken,
    which is the maximum of the readings taken when they are resident-set sizes (none
    negative);
  \<^item> maintains a peak that never decreases from one iteration to a later one (the state
    after \<open>i\<close> iterations is the run on the first \<open>i\<close> observations).
\<close>

theorem sampler_loop:
  assumes "peak_monitor_function obs a = (a', n, exited)"
  shows "exited = (\<exists>x\<in>set obs. \<not> snd x)
       \<and> n = (if exited then Suc (length (takeWhile snd obs)) else length obs)
       \<and> n \<le> length obs \<and> (obs \<noteq> [] \<longrightarrow> 1 \<le> n)
       \<and> (exited \<longrightarrow> \<not> snd (obs ! (n - 1)) \<and> (\<forall>i<n - 1. snd (obs ! i)))
       \<and> (\<forall>k<length obs. (\<forall>j. k \<le> j \<and> j < length obs \<longrightarrow> \<not> snd (obs ! j)) \<longrightarrow> exited \<and> n \<le> Suc k)
       \<and> cpu_memory_used_peak a' = Some (Max (insert (- 1) (fst ` set (take n obs))))
       \<and> (0 < n \<and> (\<forall>r\<in>fst ` set (take n obs). 0 \<le> r) \<longrightarrow>
            cpu_memory_used_peak a' = Some (Max (fst ` set (take n obs))))
       \<and> (\<forall>i j p q. i \<le> j
             \<and> cpu_memory_used_peak (fst (peak_monitor_function (take i obs) a)) = Some p
             \<and> cpu_memory_used_peak (fst (peak_monitor_function (take j obs) a)) = Some q
            \<longrightarrow> p \<le> q)"
proof -
  have n: "n = iterations obs" and ex: "exited = (\<exists>x\<in>set obs. \<not> snd x)"
    and a': "a' = a\<lparr>cpu_memory_used_peak := Some (Max (insert (- 1) (fst ` set (take n obs))))\<rparr>"
    using assms by (auto simp: peak_monitor_function_char)
  have c2: "n = (if exited then Suc (length (takeWhile snd obs)) else length obs)"
    by (simp add: n ex iterations_def)
  have c3: "n \<le> length obs" by (simp add: n iterations_le)
  have c4: "obs \<noteq> [] \<longrightarrow> 1 \<le> n" using iterations_pos [of obs] by (auto simp: n)
  have c5: "exited \<longrightarrow> \<not> snd (obs ! (n - 1)) \<and> (\<forall>i<n - 1. snd (obs ! i))"
    using exit_flag [of obs] by (simp add: n ex)
  have c6: "\<forall>k<length obs. (\<forall>j. k \<le> j \<and> j < length obs \<longrightarrow> \<not> snd (obs ! j)) \<longrightarrow> exited \<and> n \<le> Suc k"
    using flag_lowered [of _ obs] by (simp add: n ex)
  have c7: "cpu_memory_used_peak a' = Some (Max (insert (- 1) (fst ` set (take n obs))))"
    by (simp add: a')
  have c8: "0 < n \<and> (\<forall>r\<in>fst ` set (take n obs). 0 \<le> r) \<longrightarrow>
            cpu_memory_used_peak a' = Some (Max (fst ` set (take n obs)))"
  proof
    assume h: "0 < n \<and> (\<forall>r\<in>fst ` set (take n obs). 0 \<le> r)"
    then have "take n obs \<noteq> []" using c3 by auto
    then have "fst ` set (take n obs) \<noteq> {}" by simp
    then have "Max (insert (- 1) (fst ` set (take n obs))) = Max (fst ` set (take n obs))"
      using h by (intro Max_nonneg_readings) simp_all
    then show "cpu_memory_used_peak a' = Some (Max (fst ` set (take n obs)))" by (simp add: c7)
  qed
  have c9: "\<forall>i j p q. i \<le> j
             \<and> cpu_memory_used_peak (fst (peak_monitor_function (take i obs) a)) = Some p
             \<and> cpu_memory_used_peak (fst (peak_monitor_function (take j obs) a)) = Some q
            \<longrightarrow> p \<le> q"
  proof (intro allI impI)
    fix i j p q
    assume h: "i \<le> j
             \<and> cpu_memory_used_peak (fst (peak_monitor_function (take i obs) a)) = Some p
             \<and> cpu_memory_used_peak (fst (peak_monitor_function (take j obs) a)) = Some q"
    have "p = fst (monitor_loop (take i obs) (- 1) 0)"
      using h by (cases "monitor_loop (take i obs) (- 1) 0") (simp add: peak_monitor_function_def)
    moreover have "q = fst (monitor_loop (take j obs) (- 1) 0)"
      using h by (cases "monitor_loop (take j obs) (- 1) 0") (simp add: peak_monitor_function_def)
    ultimately show "p \<le> q" using h monitor_loop_mono [of i j obs "- 1" 0] by simp
  qed
  show ?thesis using ex c2 c3 c4 c5 c6 c7 c8 c9 by blast
qed

theorem sampler_loop_witness:
  "\<exists>a. attrs (MemoryTracker_init False) = Some a
     \<and> peak_monitor_function [(100, True), (300, True), (200, False), (999, True)] a
         = (a\<lparr>cpu_memory_used_peak := Some 300\<rparr>, 3, True)
     \<and> Max (fst ` set (take 3 [(100::int, True), (300, True), (200, False), (999, True)])) = 300
     \<and> 3 = Suc (length (takeWhile snd [(100::int, True), (300, True), (200, False), (999, True)]))"
  using sampler_loop [of "[(100, True), (300, True), (200, False), (999, True)]"
      "the (attrs (MemoryTracker_init False))"
      "(the (attrs (MemoryTracker_init False)))\<lparr>cpu_memory_used_peak := Some 300\<rparr>" 3 True]
  by (simp add: MemoryTracker_init_def peak_monitor_function_def)

section \<open>Reporting metrics\<close>

subsection \<open>The assignments to the metrics dictionary\<close>

lemma apply_writes_snoc: "apply_writes (ws @ [(k, v)]) m = (apply_writes ws m)(k \<mapsto> v)"
  by (simp add: apply_writes_def)

lemma apply_writes_Nil: "apply_writes [] m = m"
  by (simp add: apply_writes_def)

lemma apply_writes_other: "key \<notin> fst ` set ws \<Longrightarrow> apply_writes ws m key = m key"
proof (induction ws rule: rev_induct)
  case Nil
  then show ?case by (simp add: apply_writes_Nil)
next
  case (snoc x ws)
  obtain k v where x: "x = (k, v)" by (cases x)
  from snoc show ?case by (simp add: x apply_writes_snoc)
qed

lemma apply_writes_written:
  "(key, v) \<in> set ws \<Longrightarrow> \<forall>v'. (key, v') \<in> set ws \<longrightarrow> v' = v \<Longrightarrow> apply_writes ws m key = Some v"
proof (induction ws rule: rev_induct)
  case Nil
  then show ?case by simp
next
  case (snoc x ws)
  obtain k w where x: "x = (k, w)" by (cases x)
  show ?case
  proof (cases "k = key")
    case True
    then have "w = v" using snoc.prems(2) by (simp add: x)
    then show ?thesis using True by (simp add: x apply_writes_snoc)
  next
    case False
    then have "(key, v) \<in> set ws" using snoc.prems(1) by (simp add: x)
    moreover have "\<forall>v'. (key, v') \<in> set ws \<longrightarrow> v' = v" using snoc.prems(2) by simp
    ultimately have "apply_writes ws m key = Some v" by (rule snoc.IH)
    then show ?thesis using False by (simp add: x apply_writes_snoc)
  qed
qed

lemma in_fst_image: "(k \<in> fst ` S) = (\<exists>v. (k, v) \<in> S)"
proof
  assume "k \<in> fst ` S"
  then obtain x where "x \<in> S" and "k = fst x" by blast
  then show "\<exists>v. (k, v) \<in> S" by (cases x) auto
next
  assume "\<exists>v. (k, v) \<in> S"
  then obtain v where "(k, v) \<in> S" by blast
  then have "fst (k, v) \<in> fst ` S" by (rule imageI)
  then show "k \<in> fst ` S" by simp
qed

text \<open>
  The f-string keys are told apart by reading them from the end: \<open>delta_key\<close> is injective
  on the two devices and two kinds used, and no such key is a \<open>before_init\<close> key.
\<close>

lemma rev_delta_key:
  "rev (delta_key s dev k) = ''atled_'' @ rev k @ ''_'' @ rev dev @ ''_yromem_'' @ rev s"
  by (simp add: delta_key_def)

lemma delta_key_inject:
  assumes "dev \<in> {''cpu'', ''gpu''}" and "dev' \<in> {''cpu'', ''gpu''}"
    and "k \<in> {''alloc'', ''peaked''}" and "k' \<in> {''alloc'', ''peaked''}"
    and "delta_key s dev k = delta_key s' dev' k'"
  shows "s = s' \<and> dev = dev' \<and> k = k'"
proof -
  have "rev (delta_key s dev k) = rev (delta_key s' dev' k')" using assms(5) by simp
  then show ?thesis using assms(1-4) unfolding rev_delta_key by auto
qed

lemma delta_key_last: "last (delta_key s dev k) = CHR ''a''"
  by (simp add: delta_key_def)

lemma delta_key_not_before_init:
  "delta_key s dev k \<noteq> ''before_init_memory_cpu''" "delta_key s dev k \<noteq> ''before_init_memory_gpu''"
proof -
  show "delta_key s dev k \<noteq> ''before_init_memory_cpu''"
  proof
    assume "delta_key s dev k = ''before_init_memory_cpu''"
    then have "last (delta_key s dev k) = last ''before_init_memory_cpu''" by simp
    then show False by (simp add: delta_key_last)
  qed
  show "delta_key s dev k \<noteq> ''before_init_memory_gpu''"
  proof
    assume "delta_key s dev k = ''before_init_memory_gpu''"
    then have "last (delta_key s dev k) = last ''before_init_memory_gpu''" by simp
    then show False by (simp add: delta_key_last)
  qed
qed

lemma in_kind_writes:
  "(key, v) \<in> set (kind_writes a st k) \<longleftrightarrow>
     (\<exists>sn. cpu a (Some st) = Some sn \<and> snap_get sn k = Some v \<and> key = delta_key st ''cpu'' k) \<or>
     (\<exists>sn. gpu a (Some st) = Some sn \<and> snap_get sn k = Some v \<and> key = delta_key st ''gpu'' k)"
  by (cases "cpu a (Some st)"; cases "gpu a (Some st)")
    (auto simp: kind_writes_def split: option.splits)

lemma set_delta_writes:
  "set (delta_writes a sts) = (\<Union>st\<in>set sts. set (kind_writes a st ''alloc'') \<union> set (kind_writes a st ''peaked''))"
  by (simp add: delta_writes_def)

lemma in_delta_writes:
  "(key, v) \<in> set (delta_writes a sts) \<longleftrightarrow>
     (\<exists>st\<in>set sts. \<exists>k\<in>{''alloc'', ''peaked''}. (key, v) \<in> set (kind_writes a st k))"
  by (auto simp: set_delta_writes)

lemma snap_get_kind:
  "k \<in> {''alloc'', ''peaked''} \<Longrightarrow> \<exists>v. snap_get sn k = Some v"
  by (auto simp: snap_get_def)

lemma kind_write_origin:
  assumes "(key, v) \<in> set (kind_writes a st k)"
  obtains dev sn where "dev \<in> {''cpu'', ''gpu''}" and "key = delta_key st dev k"
    and "dev_dict a dev (Some st) = Some sn" and "snap_get sn k = Some v"
proof -
  from assms consider
      (c) sn where "cpu a (Some st) = Some sn" "snap_get sn k = Some v" "key = delta_key st ''cpu'' k"
    | (g) sn where "gpu a (Some st) = Some sn" "snap_get sn k = Some v" "key = delta_key st ''gpu'' k"
    unfolding in_kind_writes by blast
  then show ?thesis
  proof cases
    case c
    then show ?thesis using that [of "''cpu''" sn] by (simp add: dev_dict_def)
  next
    case g
    then show ?thesis using that [of "''gpu''" sn] by (simp add: dev_dict_def)
  qed
qed

lemma delta_writes_functional:
  assumes "(key, v) \<in> set (delta_writes a sts)" and "(key, v') \<in> set (delta_writes a sts)"
  shows "v' = v"
proof -
  obtain st k where k: "k \<in> {''alloc'', ''peaked''}" and kw: "(key, v) \<in> set (kind_writes a st k)"
    using assms(1) unfolding in_delta_writes by blast
  obtain st' k' where k': "k' \<in> {''alloc'', ''peaked''}" and kw': "(key, v') \<in> set (kind_writes a st' k')"
    using assms(2) unfolding in_delta_writes by blast
  from kw obtain dev sn where dev: "dev \<in> {''cpu'', ''gpu''}" and key: "key = delta_key st dev k"
    and sn: "dev_dict a dev (Some st) = Some sn" and v: "snap_get sn k = Some v"
    by (rule kind_write_origin)
  from kw' obtain dev' sn' where dev': "dev' \<in> {''cpu'', ''gpu''}" and key': "key = delta_key st' dev' k'"
    and sn': "dev_dict a dev' (Some st') = Some sn'" and v': "snap_get sn' k' = Some v'"
    by (rule kind_write_origin)
  have "delta_key st dev k = delta_key st' dev' k'" using key key' by simp
  then have "st = st' \<and> dev = dev' \<and> k = k'" using dev dev' k k' by (intro delta_key_inject)
  then show ?thesis using sn sn' v v' by simp
qed

lemma delta_writes_keys:
  assumes "key \<in> fst ` set (delta_writes a sts)"
  obtains st dev k where "st \<in> set sts" and "dev \<in> {''cpu'', ''gpu''}"
    and "k \<in> {''alloc'', ''peaked''}" and "key = delta_key st dev k"
proof -
  from assms obtain v where "(key, v) \<in> set (delta_writes a sts)"
    unfolding in_fst_image by blast
  then obtain st k where st: "st \<in> set sts" and k: "k \<in> {''alloc'', ''peaked''}"
    and kw: "(key, v) \<in> set (kind_writes a st k)"
    unfolding in_delta_writes by blast
  from kw obtain dev sn where "dev \<in> {''cpu'', ''gpu''}" and "key = delta_key st dev k"
    by (rule kind_write_origin)
  then show ?thesis using st k that by blast
qed

lemma before_init_not_delta:
  "''before_init_memory_cpu'' \<notin> fst ` set (delta_writes a sts)"
  "''before_init_memory_gpu'' \<notin> fst ` set (delta_writes a sts)"
proof -
  show "''before_init_memory_cpu'' \<notin> fst ` set (delta_writes a sts)"
  proof
    assume "''before_init_memory_cpu'' \<in> fst ` set (delta_writes a sts)"
    then obtain st dev k where "''before_init_memory_cpu'' = delta_key st dev k"
      by (rule delta_writes_keys)
    then show False using delta_key_not_before_init(1) [of st dev k] by simp
  qed
  show "''before_init_memory_gpu'' \<notin> fst ` set (delta_writes a sts)"
  proof
    assume "''before_init_memory_gpu'' \<in> fst ` set (delta_writes a sts)"
    then obtain st dev k where "''before_init_memory_gpu'' = delta_key st dev k"
      by (rule delta_writes_keys)
    then show False using delta_key_not_before_init(2) [of st dev k] by simp
  qed
qed


lemma other_stage_key_not_written:
  assumes "st \<notin> set sts" and "dev \<in> {''cpu'', ''gpu''}" and "k \<in> {''alloc'', ''peaked''}"
  shows "delta_key st dev k \<notin> fst ` set (delta_writes a sts)"
proof
  assume "delta_key st dev k \<in> fst ` set (delta_writes a sts)"
  then obtain st' dev' k' where st': "st' \<in> set sts" and dev': "dev' \<in> {''cpu'', ''gpu''}"
    and k': "k' \<in> {''alloc'', ''peaked''}" and eq: "delta_key st dev k = delta_key st' dev' k'"
    by (rule delta_writes_keys)
  have "st = st' \<and> dev = dev' \<and> k = k'"
    using assms(2) dev' assms(3) k' eq by (rule delta_key_inject)
  then show False using st' assms(1) by simp
qed

lemma delta_writes_cpu_value:
  assumes "st \<in> set sts" and "k \<in> {''alloc'', ''peaked''}" and "cpu a (Some st) = Some sn"
  shows "apply_writes (delta_writes a sts) m (delta_key st ''cpu'' k) = snap_get sn k"
proof -
  obtain v where v: "snap_get sn k = Some v" using snap_get_kind [OF assms(2)] by blast
  have "(delta_key st ''cpu'' k, v) \<in> set (kind_writes a st k)"
    unfolding in_kind_writes using assms(3) v by simp
  then have mem: "(delta_key st ''cpu'' k, v) \<in> set (delta_writes a sts)"
    unfolding in_delta_writes using assms(1,2) by blast
  have fn: "\<forall>v'. (delta_key st ''cpu'' k, v') \<in> set (delta_writes a sts) \<longrightarrow> v' = v"
    using delta_writes_functional [OF mem] by blast
  have "apply_writes (delta_writes a sts) m (delta_key st ''cpu'' k) = Some v"
    using mem fn by (rule apply_writes_written)
  then show ?thesis by (simp add: v)
qed

lemma delta_writes_gpu_value:
  assumes "st \<in> set sts" and "k \<in> {''alloc'', ''peaked''}" and "gpu a (Some st) = Some sn"
  shows "apply_writes (delta_writes a sts) m (delta_key st ''gpu'' k) = snap_get sn k"
proof -
  obtain v where v: "snap_get sn k = Some v" using snap_get_kind [OF assms(2)] by blast
  have "(delta_key st ''gpu'' k, v) \<in> set (kind_writes a st k)"
    unfolding in_kind_writes using assms(3) v by simp
  then have mem: "(delta_key st ''gpu'' k, v) \<in> set (delta_writes a sts)"
    unfolding in_delta_writes using assms(1,2) by blast
  have fn: "\<forall>v'. (delta_key st ''gpu'' k, v') \<in> set (delta_writes a sts) \<longrightarrow> v' = v"
    using delta_writes_functional [OF mem] by blast
  have "apply_writes (delta_writes a sts) m (delta_key st ''gpu'' k) = Some v"
    using mem fn by (rule apply_writes_written)
  then show ?thesis by (simp add: v)
qed




subsection \<open>The example trackers, evaluated\<close>

lemma after_train_eq:
  "after_train =
     \<lparr>skip_memory_metrics = False,
      attrs = Some \<lparr>gpu = [Some ''train'' \<mapsto> \<lparr>snap_begin = 2000, snap_end = 2500, snap_alloc = 500, snap_peaked = 300\<rparr>],
                    cpu = [Some ''train'' \<mapsto> \<lparr>snap_begin = 1000, snap_end = 1500, snap_alloc = 500, snap_peaked = 300\<rparr>],
                    cur_stage = None, init_reported = False,
                    gpu_memory_used_at_start = Some 2000, cpu_memory_used_at_start = Some 1000,
                    peak_monitoring = Some False, cpu_memory_used_peak = Some 1800,
                    gpu_memory_used_now = Some 2500, gpu_memory_used_peak = Some 2800,
                    cpu_memory_used_now = Some 1500\<rparr>,
      effects = [GcCollect, ResetPeakMemoryStats, EmptyCache, ThreadStart, GcCollect, EmptyCache]\<rparr>"
  by (simp add: after_train_def start_def stop_def final_def observed_peak_def MemoryTracker_init_def
      derive_stage_eq map_of_stages mk_snapshot_def)

lemma after_init_and_train_eq:
  "after_init_and_train =
     \<lparr>skip_memory_metrics = False,
      attrs = Some \<lparr>gpu = [Some ''init'' \<mapsto> \<lparr>snap_begin = 0, snap_end = 2000, snap_alloc = 2000, snap_peaked = 100\<rparr>,
                           Some ''train'' \<mapsto> \<lparr>snap_begin = 2000, snap_end = 2500, snap_alloc = 500, snap_peaked = 300\<rparr>],
                    cpu = [Some ''init'' \<mapsto> \<lparr>snap_begin = 100, snap_end = 900, snap_alloc = 800, snap_peaked = 50\<rparr>,
                           Some ''train'' \<mapsto> \<lparr>snap_begin = 1000, snap_end = 1500, snap_alloc = 500, snap_peaked = 300\<rparr>],
                    cur_stage = None, init_reported = False,
                    gpu_memory_used_at_start = Some 2000, cpu_memory_used_at_start = Some 1000,
                    peak_monitoring = Some False, cpu_memory_used_peak = Some 1800,
                    gpu_memory_used_now = Some 2500, gpu_memory_used_peak = Some 2800,
                    cpu_memory_used_now = Some 1500\<rparr>,
      effects = [GcCollect, ResetPeakMemoryStats, EmptyCache, ThreadStart, GcCollect, EmptyCache,
                 GcCollect, ResetPeakMemoryStats, EmptyCache, ThreadStart, GcCollect, EmptyCache]\<rparr>"
  by (simp add: after_init_and_train_def start_def stop_def final_def observed_peak_def
      MemoryTracker_init_def derive_stage_eq map_of_stages mk_snapshot_def)


lemma after_init_and_train_facts:
  "\<not> skip_memory_metrics after_init_and_train"
  "\<exists>a. attrs after_init_and_train = Some a \<and> cur_stage a = None \<and> \<not> init_reported a
      \<and> cpu a (Some ''init'') = Some \<lparr>snap_begin = 100, snap_end = 900, snap_alloc = 800, snap_peaked = 50\<rparr>
      \<and> gpu a (Some ''init'') = Some \<lparr>snap_begin = 0, snap_end = 2000, snap_alloc = 2000, snap_peaked = 100\<rparr>
      \<and> cpu a (Some ''train'') = Some \<lparr>snap_begin = 1000, snap_end = 1500, snap_alloc = 500, snap_peaked = 300\<rparr>
      \<and> gpu a (Some ''train'') = Some \<lparr>snap_begin = 2000, snap_end = 2500, snap_alloc = 500, snap_peaked = 300\<rparr>"
  by (simp_all add: after_init_and_train_eq)

subsection \<open>What one call writes\<close>

text \<open>A call for a stage other than the open one returns before writing anything.\<close>

lemma update_metrics_other_stage_open:
  assumes "attrs t = Some a" and "cur_stage a = Some s1" and "stage \<noteq> s1"
  shows "update_metrics stage m t = Return (t, m)"
  using assms by (simp add: update_metrics_def)



subsection \<open>The first call and the later ones\<close>



lemma init_delta_keys:
  "''init_memory_cpu_alloc_delta'' = delta_key ''init'' ''cpu'' ''alloc''"
  "''init_memory_cpu_peaked_delta'' = delta_key ''init'' ''cpu'' ''peaked''"
  "''init_memory_gpu_alloc_delta'' = delta_key ''init'' ''gpu'' ''alloc''"
  "''init_memory_gpu_peaked_delta'' = delta_key ''init'' ''gpu'' ''peaked''"
  by (simp_all add: delta_key_def)

lemma first_call_with_init:
  assumes "\<not> skip_memory_metrics t" and "attrs t = Some a"
    and "cur_stage a = None \<or> cur_stage a = Some stage"
    and "\<not> init_reported a"
    and "cpu a (Some ''init'') = Some ci" and "gpu a (Some ''init'') = Some gi"
  shows "\<exists>m'. update_metrics stage m t = Return (t\<lparr>attrs := Some (a\<lparr>init_reported := True\<rparr>)\<rparr>, m')
            \<and> m' ''init_memory_cpu_alloc_delta'' = Some (snap_alloc ci)
            \<and> m' ''init_memory_cpu_peaked_delta'' = Some (snap_peaked ci)
            \<and> m' ''init_memory_gpu_alloc_delta'' = Some (snap_alloc gi)
            \<and> m' ''init_memory_gpu_peaked_delta'' = Some (snap_peaked gi)
            \<and> m' ''before_init_memory_cpu'' = Some (snap_begin ci)
            \<and> m' ''before_init_memory_gpu'' = Some (snap_begin gi)
            \<and> (\<forall>k\<in>{''alloc'', ''peaked''}.
                  (\<forall>sn. cpu a (Some stage) = Some sn \<longrightarrow> m' (delta_key stage ''cpu'' k) = snap_get sn k)
                \<and> (\<forall>sn. gpu a (Some stage) = Some sn \<longrightarrow> m' (delta_key stage ''gpu'' k) = snap_get sn k))"
proof -
  define m1 where "m1 = apply_writes (delta_writes a [''init'', stage]) m"
  define m' where "m' = m1(''before_init_memory_cpu'' \<mapsto> snap_begin ci,
                            ''before_init_memory_gpu'' \<mapsto> snap_begin gi)"
  have run: "update_metrics stage m t = Return (t\<lparr>attrs := Some (a\<lparr>init_reported := True\<rparr>)\<rparr>, m')"
    using assms by (auto simp: update_metrics_def emitted_stages_def Let_def m'_def m1_def)
  have dk: "m' (delta_key st dev k) = m1 (delta_key st dev k)" for st dev k
    using delta_key_not_before_init [of st dev k] by (simp add: m'_def)
  have cpu_val: "m' (delta_key st ''cpu'' k) = snap_get sn k"
    if "st \<in> set [''init'', stage]" and "k \<in> {''alloc'', ''peaked''}" and "cpu a (Some st) = Some sn" for st k sn
    using delta_writes_cpu_value [OF that, of m] by (simp add: dk m1_def)
  have gpu_val: "m' (delta_key st ''gpu'' k) = snap_get sn k"
    if "st \<in> set [''init'', stage]" and "k \<in> {''alloc'', ''peaked''}" and "gpu a (Some st) = Some sn" for st k sn
    using delta_writes_gpu_value [OF that, of m] by (simp add: dk m1_def)
  have i1: "m' ''init_memory_cpu_alloc_delta'' = Some (snap_alloc ci)"
    using cpu_val [of "''init''" "''alloc''" ci] assms(5) by (simp add: init_delta_keys(1) [symmetric] snap_get_def)
  have i2: "m' ''init_memory_cpu_peaked_delta'' = Some (snap_peaked ci)"
    using cpu_val [of "''init''" "''peaked''" ci] assms(5) by (simp add: init_delta_keys(2) [symmetric] snap_get_def)
  have i3: "m' ''init_memory_gpu_alloc_delta'' = Some (snap_alloc gi)"
    using gpu_val [of "''init''" "''alloc''" gi] assms(6) by (simp add: init_delta_keys(3) [symmetric] snap_get_def)
  have i4: "m' ''init_memory_gpu_peaked_delta'' = Some (snap_peaked gi)"
    using gpu_val [of "''init''" "''peaked''" gi] assms(6) by (simp add: init_delta_keys(4) [symmetric] snap_get_def)
  have b1: "m' ''before_init_memory_cpu'' = Some (snap_begin ci)" by (simp add: m'_def)
  have b2: "m' ''before_init_memory_gpu'' = Some (snap_begin gi)" by (simp add: m'_def)
  have st: "\<forall>k\<in>{''alloc'', ''peaked''}.
                  (\<forall>sn. cpu a (Some stage) = Some sn \<longrightarrow> m' (delta_key stage ''cpu'' k) = snap_get sn k)
                \<and> (\<forall>sn. gpu a (Some stage) = Some sn \<longrightarrow> m' (delta_key stage ''gpu'' k) = snap_get sn k)"
  proof (intro ballI conjI allI impI)
    fix k sn
    assume k: "k \<in> {''alloc'', ''peaked''}"
    show "m' (delta_key stage ''cpu'' k) = snap_get sn k" if "cpu a (Some stage) = Some sn"
      using cpu_val [of stage k sn] k that by simp
    show "m' (delta_key stage ''gpu'' k) = snap_get sn k" if "gpu a (Some stage) = Some sn"
      using gpu_val [of stage k sn] k that by simp
  qed
  show ?thesis using run i1 i2 i3 i4 b1 b2 st by (intro exI [of _ m'] conjI)
qed

lemma later_call_no_init:
  assumes "\<not> skip_memory_metrics t" and "attrs t = Some a"
    and "init_reported a" and "stage \<noteq> ''init''"
  shows "\<exists>m'. update_metrics stage m t = Return (t, m')
            \<and> (\<forall>key\<in>{''init_memory_cpu_alloc_delta'', ''init_memory_cpu_peaked_delta'',
                        ''init_memory_gpu_alloc_delta'', ''init_memory_gpu_peaked_delta'',
                        ''before_init_memory_cpu'', ''before_init_memory_gpu''}. m' key = m key)"
proof -
  define m' where "m' = (if cur_stage a \<noteq> None \<and> cur_stage a \<noteq> Some stage then m
                          else apply_writes (delta_writes a [stage]) m)"
  have run: "update_metrics stage m t = Return (t, m')"
    using assms by (simp add: update_metrics_def emitted_stages_def Let_def m'_def)
  have nw: "delta_key ''init'' dev k \<notin> fst ` set (delta_writes a [stage])"
    if "dev \<in> {''cpu'', ''gpu''}" and "k \<in> {''alloc'', ''peaked''}" for dev k
    using that assms(4) by (intro other_stage_key_not_written) auto
  have same: "m' key = m key" if "key \<notin> fst ` set (delta_writes a [stage])" for key
    using that by (simp add: m'_def apply_writes_other)
  have "\<forall>key\<in>{''init_memory_cpu_alloc_delta'', ''init_memory_cpu_peaked_delta'',
                        ''init_memory_gpu_alloc_delta'', ''init_memory_gpu_peaked_delta'',
                        ''before_init_memory_cpu'', ''before_init_memory_gpu''}. m' key = m key"
    unfolding init_delta_keys
    using same nw before_init_not_delta [of a "[stage]"] by simp
  then show ?thesis using run by blast
qed

text \<open>Once true, \<open>init_reported\<close> stays true under every operation.\<close>

lemma init_reported_kept:
  assumes "attrs t = Some a" and "init_reported a"
  shows "\<exists>a'. attrs (final (start caller g c t)) = Some a' \<and> init_reported a'"
    and "\<exists>a'. attrs (final (stop stage g gp c t)) = Some a' \<and> init_reported a'"
    and "\<exists>a'. attrs (observed_peak p t) = Some a' \<and> init_reported a'"
    and "\<exists>a'. attrs (fst (final (update_metrics stage m t))) = Some a' \<and> init_reported a'"
proof -
  show "\<exists>a'. attrs (final (start caller g c t)) = Some a' \<and> init_reported a'"
    using assms by (simp add: start_def final_def split: sum.splits)
  show "\<exists>a'. attrs (final (stop stage g gp c t)) = Some a' \<and> init_reported a'"
    using assms by (simp add: stop_def final_def Let_def split: option.splits)
  show "\<exists>a'. attrs (observed_peak p t) = Some a' \<and> init_reported a'"
    using assms by (simp add: observed_peak_def)
  show "\<exists>a'. attrs (fst (final (update_metrics stage m t))) = Some a' \<and> init_reported a'"
    using assms by (simp add: update_metrics_def final_def Let_def split: option.splits)
qed

text \<open>
  Claim C6 says that the first call that passes the guards writes the \<open>init\<close> delta keys
  and the two \<open>before_init\<close> keys, and that no later call writes any of them again. Both
  halves fail as stated. A later call for the stage \<open>init\<close> emits \<open>[init]\<close>, whose head
  is \<open>init\<close>, and writes all of them again. And a first call on a tracker with no
  \<open>init\<close> snapshot writes none of them and raises \<^verbatim>\<open>KeyError\<close>.
\<close>

theorem init_metrics_counterexample:
  "map_option init_reported
       (attrs (fst (final (update_metrics ''train'' Map.empty after_init_and_train)))) = Some True
   \<and> snd (final (update_metrics ''init'' Map.empty
       (fst (final (update_metrics ''train'' Map.empty after_init_and_train)))))
         ''before_init_memory_cpu'' = Some 100
   \<and> snd (final (update_metrics ''init'' Map.empty
       (fst (final (update_metrics ''train'' Map.empty after_init_and_train)))))
         ''init_memory_cpu_alloc_delta'' = Some 800
   \<and> map_option init_reported (attrs after_train) = Some False
   \<and> update_metrics ''train'' Map.empty after_train
       = Raise KeyError (final (update_metrics ''train'' Map.empty after_train))
   \<and> snd (final (update_metrics ''train'' Map.empty after_train)) ''before_init_memory_cpu'' = None
   \<and> snd (final (update_metrics ''train'' Map.empty after_train)) ''init_memory_cpu_alloc_delta'' = None"
  by (simp add: after_init_and_train_eq after_train_eq update_metrics_def final_def emitted_stages_def
      delta_writes_def kind_writes_def snap_get_def delta_key_def apply_writes_def Let_def)

text \<open>
  Claim C6, amended. On the first call that passes the guards (\<open>init_reported\<close> false), in
  a state where both dictionaries hold a snapshot for \<open>init\<close>, the stages emitted are
  \<open>[init, stage]\<close>; the call returns, writes the four \<open>init\<close> delta keys and the two
  \<open>before_init\<close> keys besides the requested stage's keys, and sets \<open>init_reported\<close>.
  On every call with \<open>init_reported\<close> true and a stage other than \<open>init\<close>, the stages
  emitted are \<open>[stage]\<close>, the tracker is unchanged and none of those six keys is written.
\<close>

theorem init_metrics_reported_once:
  assumes "\<not> skip_memory_metrics t" and "attrs t = Some a"
  shows "(\<not> init_reported a \<and> (cur_stage a = None \<or> cur_stage a = Some stage)
            \<and> cpu a (Some ''init'') = Some ci \<and> gpu a (Some ''init'') = Some gi \<longrightarrow>
          emitted_stages (init_reported a) stage = [''init'', stage]
          \<and> (\<exists>m'. update_metrics stage m t = Return (t\<lparr>attrs := Some (a\<lparr>init_reported := True\<rparr>)\<rparr>, m')
                \<and> m' ''init_memory_cpu_alloc_delta'' = Some (snap_alloc ci)
                \<and> m' ''init_memory_cpu_peaked_delta'' = Some (snap_peaked ci)
                \<and> m' ''init_memory_gpu_alloc_delta'' = Some (snap_alloc gi)
                \<and> m' ''init_memory_gpu_peaked_delta'' = Some (snap_peaked gi)
                \<and> m' ''before_init_memory_cpu'' = Some (snap_begin ci)
                \<and> m' ''before_init_memory_gpu'' = Some (snap_begin gi)
                \<and> (\<forall>k\<in>{''alloc'', ''peaked''}.
                      (\<forall>sn. cpu a (Some stage) = Some sn \<longrightarrow> m' (delta_key stage ''cpu'' k) = snap_get sn k)
                    \<and> (\<forall>sn. gpu a (Some stage) = Some sn \<longrightarrow> m' (delta_key stage ''gpu'' k) = snap_get sn k))))
       \<and> (init_reported a \<and> stage \<noteq> ''init'' \<longrightarrow>
          emitted_stages (init_reported a) stage = [stage]
          \<and> (\<exists>m'. update_metrics stage m t = Return (t, m')
                \<and> (\<forall>key\<in>{''init_memory_cpu_alloc_delta'', ''init_memory_cpu_peaked_delta'',
                            ''init_memory_gpu_alloc_delta'', ''init_memory_gpu_peaked_delta'',
                            ''before_init_memory_cpu'', ''before_init_memory_gpu''}. m' key = m key)))"
proof (intro conjI impI)
  assume h: "\<not> init_reported a \<and> (cur_stage a = None \<or> cur_stage a = Some stage)
            \<and> cpu a (Some ''init'') = Some ci \<and> gpu a (Some ''init'') = Some gi"
  then show "emitted_stages (init_reported a) stage = [''init'', stage]"
    by (simp add: emitted_stages_def)
  from h have g: "cur_stage a = None \<or> cur_stage a = Some stage" and r: "\<not> init_reported a"
    and c: "cpu a (Some ''init'') = Some ci" and gi: "gpu a (Some ''init'') = Some gi" by simp_all
  show "\<exists>m'. update_metrics stage m t = Return (t\<lparr>attrs := Some (a\<lparr>init_reported := True\<rparr>)\<rparr>, m')
                \<and> m' ''init_memory_cpu_alloc_delta'' = Some (snap_alloc ci)
                \<and> m' ''init_memory_cpu_peaked_delta'' = Some (snap_peaked ci)
                \<and> m' ''init_memory_gpu_alloc_delta'' = Some (snap_alloc gi)
                \<and> m' ''init_memory_gpu_peaked_delta'' = Some (snap_peaked gi)
                \<and> m' ''before_init_memory_cpu'' = Some (snap_begin ci)
                \<and> m' ''before_init_memory_gpu'' = Some (snap_begin gi)
                \<and> (\<forall>k\<in>{''alloc'', ''peaked''}.
                      (\<forall>sn. cpu a (Some stage) = Some sn \<longrightarrow> m' (delta_key stage ''cpu'' k) = snap_get sn k)
                    \<and> (\<forall>sn. gpu a (Some stage) = Some sn \<longrightarrow> m' (delta_key stage ''gpu'' k) = snap_get sn k))"
    by (rule first_call_with_init [OF assms g r c gi])
next
  assume h: "init_reported a \<and> stage \<noteq> ''init''"
  then show "emitted_stages (init_reported a) stage = [stage]" by (simp add: emitted_stages_def)
  from h have r: "init_reported a" and s: "stage \<noteq> ''init''" by simp_all
  show "\<exists>m'. update_metrics stage m t = Return (t, m')
                \<and> (\<forall>key\<in>{''init_memory_cpu_alloc_delta'', ''init_memory_cpu_peaked_delta'',
                            ''init_memory_gpu_alloc_delta'', ''init_memory_gpu_peaked_delta'',
                            ''before_init_memory_cpu'', ''before_init_memory_gpu''}. m' key = m key)"
    by (rule later_call_no_init [OF assms r s])
qed

theorem init_metrics_reported_once_witness:
  "\<exists>t1 m1 m2.
      update_metrics ''train'' Map.empty after_init_and_train = Return (t1, m1)
    \<and> m1 ''init_memory_cpu_alloc_delta'' = Some 800
    \<and> m1 ''init_memory_gpu_peaked_delta'' = Some 100
    \<and> m1 ''before_init_memory_cpu'' = Some 100
    \<and> m1 ''before_init_memory_gpu'' = Some 0
    \<and> m1 ''train_memory_cpu_alloc_delta'' = Some 500
    \<and> update_metrics ''train'' Map.empty t1 = Return (t1, m2)
    \<and> m2 ''init_memory_cpu_alloc_delta'' = None
    \<and> m2 ''before_init_memory_cpu'' = None"
proof -
  obtain a where a: "attrs after_init_and_train = Some a" and cs: "cur_stage a = None"
    and ir: "\<not> init_reported a"
    and ci: "cpu a (Some ''init'') = Some \<lparr>snap_begin = 100, snap_end = 900, snap_alloc = 800, snap_peaked = 50\<rparr>"
    and gi: "gpu a (Some ''init'') = Some \<lparr>snap_begin = 0, snap_end = 2000, snap_alloc = 2000, snap_peaked = 100\<rparr>"
    and ct: "cpu a (Some ''train'') = Some \<lparr>snap_begin = 1000, snap_end = 1500, snap_alloc = 500, snap_peaked = 300\<rparr>"
    using after_init_and_train_facts(2) by blast
  define t1 where "t1 = after_init_and_train\<lparr>attrs := Some (a\<lparr>init_reported := True\<rparr>)\<rparr>"
  have first: "\<not> init_reported a \<and> (cur_stage a = None \<or> cur_stage a = Some ''train'')
            \<and> cpu a (Some ''init'') = Some \<lparr>snap_begin = 100, snap_end = 900, snap_alloc = 800, snap_peaked = 50\<rparr>
            \<and> gpu a (Some ''init'') = Some \<lparr>snap_begin = 0, snap_end = 2000, snap_alloc = 2000, snap_peaked = 100\<rparr>"
    using cs ir ci gi by simp
  obtain m1 where run1: "update_metrics ''train'' Map.empty after_init_and_train = Return (t1, m1)"
    and a1: "m1 ''init_memory_cpu_alloc_delta'' = Some 800"
    and a2: "m1 ''init_memory_gpu_peaked_delta'' = Some 100"
    and a3: "m1 ''before_init_memory_cpu'' = Some 100"
    and a4: "m1 ''before_init_memory_gpu'' = Some 0"
    and stg: "\<forall>k\<in>{''alloc'', ''peaked''}.
                (\<forall>sn. cpu a (Some ''train'') = Some sn \<longrightarrow> m1 (delta_key ''train'' ''cpu'' k) = snap_get sn k)
              \<and> (\<forall>sn. gpu a (Some ''train'') = Some sn \<longrightarrow> m1 (delta_key ''train'' ''gpu'' k) = snap_get sn k)"
    using init_metrics_reported_once [OF after_init_and_train_facts(1) a, THEN conjunct1, rule_format, OF first,
        of Map.empty]
    unfolding t1_def by auto
  have a5: "m1 ''train_memory_cpu_alloc_delta'' = Some 500"
    using stg ct by (simp add: delta_key_def snap_get_def)
  have sk1: "\<not> skip_memory_metrics t1" using after_init_and_train_facts(1) by (simp add: t1_def)
  have at1: "attrs t1 = Some (a\<lparr>init_reported := True\<rparr>)" by (simp add: t1_def)
  have later: "init_reported (a\<lparr>init_reported := True\<rparr>) \<and> ''train'' \<noteq> ''init''" by simp
  obtain m2 where run2: "update_metrics ''train'' Map.empty t1 = Return (t1, m2)"
    and b1: "m2 ''init_memory_cpu_alloc_delta'' = None"
    and b2: "m2 ''before_init_memory_cpu'' = None"
    using init_metrics_reported_once [OF sk1 at1, THEN conjunct2, rule_format, OF later, of Map.empty]
    by auto
  show ?thesis using run1 a1 a2 a3 a4 a5 run2 b1 b2 by blast
qed

end
